theory Spec2Isabelle
  imports Main "HOL-Library.Word" "HOL-Library.Product_Lexorder"
begin

section \<open>Data model\<close>

text \<open>
  The volume of \<^verbatim>\<open>fileSystem.py\<close>: the metadata dictionary \<^verbatim>\<open>fs_metadata\<close>
  (keys \<^verbatim>\<open>max_size\<close>, \<^verbatim>\<open>used_size\<close>, \<^verbatim>\<open>files\<close>, \<^verbatim>\<open>directories\<close>, \<^verbatim>\<open>free_space\<close>),
  the byte arena \<^verbatim>\<open>data_file\<close>, the table \<^verbatim>\<open>open_files\<close> and the cursor
  \<^verbatim>\<open>current_path\<close>. Python integers are unbounded, so offsets and sizes are \<open>int\<close>.
  A Python \<^verbatim>\<open>str\<close> holding file content is a list of code points; names and paths are
  \<open>string\<close>. Time stamps are the values \<^verbatim>\<open>time.time()\<close> returns; every operation
  takes the current reading as an argument.
\<close>

type_synonym byte = "8 word"
type_synonym pystr = "nat list"
type_synonym timestamp = nat
type_synonym free_block = "int \<times> int"

datatype error =
    NotFound
  | AlreadyExists
  | InUse
  | NotOpen
  | WrongMode
  | InvalidArgument
  | OutOfSpace
  | KeyError
  | UnicodeError
  | OSError

text \<open>
  The exceptions of the source: \<open>NotFound\<close> is \<^verbatim>\<open>FileNotFoundError\<close> and the
  \<^verbatim>\<open>ValueError\<close>s "does not exist"; \<open>AlreadyExists\<close>, \<open>InUse\<close>, \<open>NotOpen\<close> and
  \<open>InvalidArgument\<close> are the other \<^verbatim>\<open>ValueError\<close>s; \<open>WrongMode\<close> and \<open>OutOfSpace\<close> are
  the \<^verbatim>\<open>IOError\<close>s of the handle methods and of \<^verbatim>\<open>_allocate_space\<close>; \<open>KeyError\<close> is a
  dictionary subscript on a missing key; \<open>UnicodeError\<close> is a failing
  \<^verbatim>\<open>encode\<close>/\<^verbatim>\<open>decode\<close>; \<open>OSError\<close> is a \<^verbatim>\<open>seek\<close> to a negative position.
\<close>

record file_meta =
  f_name :: string
  f_size :: int
  f_creation_time :: timestamp
  f_modified_time :: timestamp
  f_start_pos :: int
  f_is_directory :: bool

record dir_meta =
  d_name :: string
  d_creation_time :: timestamp
  d_files :: "string list"
  d_subdirectories :: "string list"

text \<open>
  A \<^verbatim>\<open>FileObject\<close>. Its \<^verbatim>\<open>file_meta\<close> is a reference to a dictionary that the
  \<^verbatim>\<open>files\<close> table may share, so it is an address into the store \<open>metas\<close> below.
\<close>

record file_object =
  file_name :: string
  mode :: string
  file_meta :: nat
  content :: pystr

text \<open>
  A \<^verbatim>\<open>FileSystem\<close>. \<open>metas\<close> is the store of file-record dictionaries and \<open>objects\<close>
  the store of \<^verbatim>\<open>FileObject\<close>s; \<open>files\<close> and \<open>open_files\<close> hold addresses into them.
\<close>

record file_system =
  max_size :: int
  used_size :: int
  files :: "string \<rightharpoonup> nat"
  directories :: "string \<rightharpoonup> dir_meta"
  free_space :: "free_block list"
  data_file :: "byte list"
  open_files :: "string \<rightharpoonup> nat"
  current_path :: string
  metas :: "nat \<Rightarrow> file_meta"
  next_meta :: nat
  objects :: "nat \<rightharpoonup> file_object"
  next_object :: nat

section \<open>Free-space allocator\<close>

text \<open>
  The scan of \<^verbatim>\<open>_allocate_space\<close>. \<open>None\<close> is \<^verbatim>\<open>best_fit_index == -1\<close> with
  \<^verbatim>\<open>best_fit_size == inf\<close>; \<open>Some (i, s)\<close> is the pair of the two variables.
\<close>

fun best_fit :: "free_block list \<Rightarrow> int \<Rightarrow> nat \<Rightarrow> (nat \<times> int) option \<Rightarrow> (nat \<times> int) option" where
  "best_fit [] sz i best = best"
| "best_fit ((start, free_size) # rest) sz i best =
     best_fit rest sz (Suc i)
       (if free_size \<ge> sz \<and> (case best of None \<Rightarrow> True | Some (_, best_fit_size) \<Rightarrow> free_size < best_fit_size)
        then Some (i, free_size) else best)"

definition pop :: "nat \<Rightarrow> 'a list \<Rightarrow> 'a list" where
  "pop i xs = take i xs @ drop (Suc i) xs"

definition allocate_space :: "file_system \<Rightarrow> int \<Rightarrow> (error + int) \<times> file_system" where
  "allocate_space fs sz =
     (if free_space fs = [] then (Inl OutOfSpace, fs)
      else case best_fit (free_space fs) sz 0 None of
             None \<Rightarrow> (Inl OutOfSpace, fs)
           | Some (best_fit_index, _) \<Rightarrow>
               (case free_space fs ! best_fit_index of (start, free_size) \<Rightarrow>
                  (Inr start,
                   fs\<lparr>free_space :=
                        (if free_size = sz then pop best_fit_index (free_space fs)
                         else (free_space fs)[best_fit_index := (start + sz, free_size - sz)]),
                      used_size := used_size fs + sz\<rparr>)))"

text \<open>The merging loop of \<^verbatim>\<open>_release_space\<close>, with its index \<open>i\<close>.\<close>

function merge_adjacent :: "free_block list \<Rightarrow> nat \<Rightarrow> free_block list" where
  "merge_adjacent fl i =
     (if i + 1 < length fl then
        (case (fl ! i, fl ! (i + 1)) of ((curr_start, curr_size), (next_start, next_size)) \<Rightarrow>
           if curr_start + curr_size = next_start
           then merge_adjacent (pop (i + 1) (fl[i := (curr_start, curr_size + next_size)])) i
           else merge_adjacent fl (i + 1))
      else fl)"
  by pat_completeness auto
termination
  by (relation "measure (\<lambda>(fl, i). length fl - i)") (auto simp: pop_def)

declare merge_adjacent.simps [simp del]

definition release_space :: "file_system \<Rightarrow> int \<Rightarrow> int \<Rightarrow> file_system" where
  "release_space fs start sz =
     (if sz \<le> 0 then fs
      else fs\<lparr>free_space := merge_adjacent (sort (free_space fs @ [(start, sz)])) 0,
              used_size := used_size fs - sz\<rparr>)"

section \<open>Strings, UTF-8 and the data file\<close>

text \<open>\<^verbatim>\<open>s.split('/')\<close>, \<^verbatim>\<open>'/'.join(parts)\<close>, \<^verbatim>\<open>s.rstrip('/')\<close>, \<^verbatim>\<open>s.startswith('/')\<close>
  and \<^verbatim>\<open>s.rsplit('/', 1)[0]\<close>.\<close>

fun split_slash :: "string \<Rightarrow> string list" where
  "split_slash [] = [[]]"
| "split_slash (c # cs) =
     (if c = CHR ''/'' then [] # split_slash cs
      else (case split_slash cs of [] \<Rightarrow> [[c]] | p # ps \<Rightarrow> (c # p) # ps))"

fun join_slash :: "string list \<Rightarrow> string" where
  "join_slash [] = []"
| "join_slash [p] = p"
| "join_slash (p # q # ps) = p @ ''/'' @ join_slash (q # ps)"

definition rstrip_slash :: "string \<Rightarrow> string" where
  "rstrip_slash s = rev (dropWhile (\<lambda>c. c = CHR ''/'') (rev s))"

definition startswith_slash :: "string \<Rightarrow> bool" where
  "startswith_slash s = (case s of [] \<Rightarrow> False | c # _ \<Rightarrow> c = CHR ''/'')"

definition rsplit_slash_head :: "string \<Rightarrow> string" where
  "rsplit_slash_head s =
     (if CHR ''/'' \<in> set s then rev (tl (dropWhile (\<lambda>c. c \<noteq> CHR ''/'') (rev s))) else s)"

text \<open>\<^verbatim>\<open>[p for p in path.split('/') if p]\<close>\<close>

definition path_parts_of :: "string \<Rightarrow> string list" where
  "path_parts_of path = filter (\<lambda>p. p \<noteq> []) (split_slash path)"

text \<open>
  \<^verbatim>\<open>str.encode('utf-8')\<close>: one to four bytes for each code point; a surrogate
  (\<open>0xD800\<close> to \<open>0xDFFF\<close>) cannot be encoded. A Python \<^verbatim>\<open>str\<close> holds no code point
  above \<open>0x10FFFF\<close>.
\<close>

definition encode_char :: "nat \<Rightarrow> byte list option" where
  "encode_char c =
     (if c < 0x80 then Some [of_nat c]
      else if c < 0x800 then Some [of_nat (0xC0 + c div 64), of_nat (0x80 + c mod 64)]
      else if 0xD800 \<le> c \<and> c < 0xE000 then None
      else if c < 0x10000 then
        Some [of_nat (0xE0 + c div 4096), of_nat (0x80 + c div 64 mod 64), of_nat (0x80 + c mod 64)]
      else if c < 0x110000 then
        Some [of_nat (0xF0 + c div 262144), of_nat (0x80 + c div 4096 mod 64),
              of_nat (0x80 + c div 64 mod 64), of_nat (0x80 + c mod 64)]
      else None)"

fun encode_utf8 :: "pystr \<Rightarrow> byte list option" where
  "encode_utf8 [] = Some []"
| "encode_utf8 (c # cs) =
     (case encode_char c of None \<Rightarrow> None
      | Some bs \<Rightarrow> (case encode_utf8 cs of None \<Rightarrow> None | Some rest \<Rightarrow> Some (bs @ rest)))"

text \<open>
  \<^verbatim>\<open>bytes.decode('utf-8')\<close>, strict: a continuation byte is \<open>0x80\<close> to \<open>0xBF\<close>;
  overlong forms, surrogates and values above \<open>0x10FFFF\<close> are rejected, as are a
  stray continuation byte and a truncated sequence. The argument lists the byte values.
\<close>

definition cont :: "nat \<Rightarrow> bool" where
  "cont b = (0x80 \<le> b \<and> b \<le> 0xBF)"

fun decode_bytes :: "nat list \<Rightarrow> pystr option" where
  "decode_bytes [] = Some []"
| "decode_bytes (b0 # bs) =
     (if b0 < 0x80 then map_option (\<lambda>cs. b0 # cs) (decode_bytes bs)
      else if 0xC2 \<le> b0 \<and> b0 \<le> 0xDF then
        (case bs of
           b1 # r \<Rightarrow>
             if cont b1
             then map_option (\<lambda>cs. ((b0 - 0xC0) * 64 + (b1 - 0x80)) # cs) (decode_bytes r)
             else None
         | _ \<Rightarrow> None)
      else if 0xE0 \<le> b0 \<and> b0 \<le> 0xEF then
        (case bs of
           b1 # b2 # r \<Rightarrow>
             if cont b1 \<and> cont b2 \<and> (b0 = 0xE0 \<longrightarrow> 0xA0 \<le> b1) \<and> (b0 = 0xED \<longrightarrow> b1 \<le> 0x9F)
             then map_option
                    (\<lambda>cs. ((b0 - 0xE0) * 4096 + (b1 - 0x80) * 64 + (b2 - 0x80)) # cs)
                    (decode_bytes r)
             else None
         | _ \<Rightarrow> None)
      else if 0xF0 \<le> b0 \<and> b0 \<le> 0xF4 then
        (case bs of
           b1 # b2 # b3 # r \<Rightarrow>
             if cont b1 \<and> cont b2 \<and> cont b3 \<and> (b0 = 0xF0 \<longrightarrow> 0x90 \<le> b1) \<and> (b0 = 0xF4 \<longrightarrow> b1 \<le> 0x8F)
             then map_option
                    (\<lambda>cs. ((b0 - 0xF0) * 262144 + (b1 - 0x80) * 4096 + (b2 - 0x80) * 64
                            + (b3 - 0x80)) # cs)
                    (decode_bytes r)
             else None
         | _ \<Rightarrow> None)
      else None)"

definition decode_utf8 :: "byte list \<Rightarrow> pystr option" where
  "decode_utf8 bs = decode_bytes (map unat bs)"

text \<open>\<^verbatim>\<open>s.rstrip('\0')\<close>\<close>

definition rstrip_nul :: "pystr \<Rightarrow> pystr" where
  "rstrip_nul s = rev (dropWhile (\<lambda>c. c = 0) (rev s))"

text \<open>
  The data file, opened in binary mode. \<^verbatim>\<open>df.seek(pos)\<close> raises \<^verbatim>\<open>OSError\<close> for a
  negative position. \<^verbatim>\<open>df.read(n)\<close> returns the bytes that exist, at most \<open>n\<close> of them,
  and all the rest for a negative \<open>n\<close>. \<^verbatim>\<open>df.write(bs)\<close> overwrites in place; past the
  end of the file the gap is filled with zero bytes, and writing nothing changes nothing.
\<close>

definition df_read :: "byte list \<Rightarrow> int \<Rightarrow> int \<Rightarrow> error + byte list" where
  "df_read df pos n =
     (if pos < 0 then Inl OSError
      else Inr (if n < 0 then drop (nat pos) df else take (nat n) (drop (nat pos) df)))"

definition df_write :: "byte list \<Rightarrow> int \<Rightarrow> byte list \<Rightarrow> error + byte list" where
  "df_write df pos bs =
     (if pos < 0 then Inl OSError
      else Inr (if bs = [] then df
                else take (nat pos) df @ replicate (nat pos - length df) 0 @ bs
                     @ drop (nat pos + length bs) df))"

section \<open>The volume\<close>

text \<open>
  \<^verbatim>\<open>FileSystem._initialize\<close> when no metadata file exists: one root directory, one
  free block spanning the volume, a zero-filled data file. \<^verbatim>\<open>_save_metadata\<close> writes
  a snapshot to a side file that no operation reads back; it is left out.
\<close>

definition new_dir :: "string \<Rightarrow> timestamp \<Rightarrow> dir_meta" where
  "new_dir nm now = \<lparr>d_name = nm, d_creation_time = now, d_files = [], d_subdirectories = []\<rparr>"

definition initialize :: "int \<Rightarrow> timestamp \<Rightarrow> file_system" where
  "initialize cap now =
     \<lparr>max_size = cap, used_size = 0, files = Map.empty,
      directories = [''/'' \<mapsto> new_dir ''/'' now],
      free_space = [(0, cap)],
      data_file = replicate (nat cap) 0,
      open_files = Map.empty, current_path = ''/'',
      metas = (\<lambda>_. \<lparr>f_name = [], f_size = 0, f_creation_time = 0, f_modified_time = 0,
                      f_start_pos = 0, f_is_directory = False\<rparr>),
      next_meta = 0, objects = Map.empty, next_object = 0\<rparr>"

text \<open>Assignments to the fields of a file-record dictionary.\<close>

definition set_size :: "file_system \<Rightarrow> nat \<Rightarrow> int \<Rightarrow> file_system" where
  "set_size fs r n = fs\<lparr>metas := (metas fs)(r := (metas fs r)\<lparr>f_size := n\<rparr>)\<rparr>"

definition set_modified_time :: "file_system \<Rightarrow> nat \<Rightarrow> timestamp \<Rightarrow> file_system" where
  "set_modified_time fs r t = fs\<lparr>metas := (metas fs)(r := (metas fs r)\<lparr>f_modified_time := t\<rparr>)\<rparr>"

definition get_current_directory_meta :: "file_system \<Rightarrow> timestamp \<Rightarrow> file_system" where
  "get_current_directory_meta fs now =
     (if directories fs (current_path fs) = None
      then fs\<lparr>directories := (directories fs)(current_path fs \<mapsto>
                 new_dir (if current_path fs \<noteq> ''/'' then last (split_slash (current_path fs)) else ''/'')
                         now)\<rparr>
      else fs)"

text \<open>\<^verbatim>\<open>if name not in d['files']: d['files'].append(name)\<close> on the directory at \<open>path\<close>,
  which the callers have made sure exists.\<close>

definition link_file :: "file_system \<Rightarrow> string \<Rightarrow> string \<Rightarrow> file_system" where
  "link_file fs path nm =
     (case directories fs path of
        None \<Rightarrow> fs
      | Some d \<Rightarrow>
          if nm \<in> set (d_files d) then fs
          else fs\<lparr>directories := (directories fs)(path \<mapsto> d\<lparr>d_files := d_files d @ [nm]\<rparr>)\<rparr>)"

text \<open>The loop that removes a file name from the \<^verbatim>\<open>files\<close> list of every directory.\<close>

definition unlink_everywhere :: "(string \<rightharpoonup> dir_meta) \<Rightarrow> string \<Rightarrow> (string \<rightharpoonup> dir_meta)" where
  "unlink_everywhere dirs nm =
     (\<lambda>path. map_option (\<lambda>d. d\<lparr>d_files := remove1 nm (d_files d)\<rparr>) (dirs path))"

subsection \<open>FileObject\<close>

text \<open>
  \<^verbatim>\<open>FileObject.__init__\<close>. A missing file opened for writing is created: the zero-byte
  allocation comes first (inside the dictionary literal), then the current directory is
  fetched and the name appended to it, then the directory at \<^verbatim>\<open>dir_path\<close> is
  subscripted, and last the record enters \<^verbatim>\<open>files\<close>. For the root, \<^verbatim>\<open>path_parts\<close> is empty and
  \<^verbatim>\<open>dir_path\<close> stays the empty string.
\<close>

definition file_object_init ::
    "file_system \<Rightarrow> timestamp \<Rightarrow> string \<Rightarrow> string \<Rightarrow> (error + file_object) \<times> file_system" where
  "file_object_init fs now nm md =
     (case files fs nm of
        None \<Rightarrow>
          if md \<noteq> ''w'' then (Inl NotFound, fs)
          else
            (case allocate_space fs 0 of
               (Inl e, fs1) \<Rightarrow> (Inl e, fs1)
             | (Inr start, fs1) \<Rightarrow>
                 let r = next_meta fs1;
                     fs2 = fs1\<lparr>metas := (metas fs1)(r :=
                                 \<lparr>f_name = nm, f_size = 0, f_creation_time = now,
                                  f_modified_time = now, f_start_pos = start,
                                  f_is_directory = False\<rparr>),
                               next_meta := Suc r\<rparr>;
                     fs3 = get_current_directory_meta fs2 now;
                     fs4 = link_file fs3 (current_path fs3) nm;
                     path_parts = path_parts_of (current_path fs4);
                     dir_path = (if path_parts \<noteq> [] then ''/'' @ join_slash path_parts else [])
                 in (case directories fs4 dir_path of
                       None \<Rightarrow> (Inl KeyError, fs4)
                     | Some d \<Rightarrow>
                         (Inr \<lparr>file_name = nm, mode = md, file_meta = r, content = []\<rparr>,
                          fs4\<lparr>directories := (directories fs4)(dir_path \<mapsto>
                                  d\<lparr>d_files := d_files d @ [nm]\<rparr>),
                              files := (files fs4)(nm \<mapsto> r)\<rparr>)))
      | Some r \<Rightarrow>
          (case df_read (data_file fs) (f_start_pos (metas fs r)) (f_size (metas fs r)) of
             Inl e \<Rightarrow> (Inl e, fs)
           | Inr bs \<Rightarrow>
               (case decode_utf8 bs of
                  None \<Rightarrow> (Inl UnicodeError, fs)
                | Some cs \<Rightarrow>
                    (Inr \<lparr>file_name = nm, mode = md, file_meta = r, content = rstrip_nul cs\<rparr>,
                     fs))))"

text \<open>
  The methods take the object and the volume and return both as the call leaves them,
  also when it raises.
\<close>

type_synonym 'a outcome = "(error + 'a) \<times> file_object \<times> file_system"

definition write_to_file :: "file_object \<Rightarrow> file_system \<Rightarrow> timestamp \<Rightarrow> pystr \<Rightarrow> unit outcome" where
  "write_to_file self fs now txt =
     (if mode self \<noteq> ''w'' then (Inl WrongMode, self, fs)
      else
        let self1 = self\<lparr>content := content self @ txt\<rparr> in
        if f_start_pos (metas fs (file_meta self1)) < 0 then (Inl OSError, self1, fs)
        else
          (case encode_utf8 (content self1) of
             None \<Rightarrow> (Inl UnicodeError, self1, fs)
           | Some bytes \<Rightarrow>
               (case df_write (data_file fs) (f_start_pos (metas fs (file_meta self1))) bytes of
                  Inl e \<Rightarrow> (Inl e, self1, fs)
                | Inr df \<Rightarrow>
                    let fs1 = set_size (fs\<lparr>data_file := df\<rparr>) (file_meta self1) (int (length bytes));
                        fs2 = set_modified_time fs1 (file_meta self1) now
                    in (case files fs2 (file_name self1) of
                          None \<Rightarrow> (Inl KeyError, self1, fs2)
                        | Some r \<Rightarrow>
                            let fs3 = set_size fs2 r (f_size (metas fs2 (file_meta self1)));
                                fs4 = set_modified_time fs3 r
                                        (f_modified_time (metas fs3 (file_meta self1)))
                            in (Inr (), self1, fs4)))))"

text \<open>
  Three pieces of code that the methods below share. \<open>assign_size\<close> is the pair of
  assignments \<^verbatim>\<open>self.file_meta['size'] = n\<close> and
  \<^verbatim>\<open>fs_metadata['files'][self.file_name]['size'] = n\<close>; the second subscript raises
  \<^verbatim>\<open>KeyError\<close> when the name has left the table. \<open>extend_file\<close> is that pair under its
  guard \<^verbatim>\<open>if n > self.file_meta['size']\<close>. \<open>touch\<close> is the pair of assignments to
  \<^verbatim>\<open>modified_time\<close> that ends every method. \<open>write_and_touch\<close> is the block that
  seeks to \<^verbatim>\<open>start_pos + pos\<close>, writes the bytes and updates \<^verbatim>\<open>modified_time\<close>.
\<close>

definition assign_size :: "file_object \<Rightarrow> file_system \<Rightarrow> int \<Rightarrow> error option \<times> file_system" where
  "assign_size self fs n =
     (let fs1 = set_size fs (file_meta self) n in
      case files fs1 (file_name self) of
        None \<Rightarrow> (Some KeyError, fs1)
      | Some r \<Rightarrow> (None, set_size fs1 r n))"

definition extend_file :: "file_object \<Rightarrow> file_system \<Rightarrow> int \<Rightarrow> error option \<times> file_system" where
  "extend_file self fs n =
     (if n > f_size (metas fs (file_meta self)) then assign_size self fs n else (None, fs))"

definition touch :: "file_object \<Rightarrow> file_system \<Rightarrow> timestamp \<Rightarrow> error option \<times> file_system" where
  "touch self fs now =
     (let fs1 = set_modified_time fs (file_meta self) now in
      case files fs1 (file_name self) of
        None \<Rightarrow> (Some KeyError, fs1)
      | Some r \<Rightarrow> (None, set_modified_time fs1 r (f_modified_time (metas fs1 (file_meta self)))))"

definition write_and_touch ::
    "file_object \<Rightarrow> file_system \<Rightarrow> timestamp \<Rightarrow> int \<Rightarrow> byte list \<Rightarrow> unit outcome" where
  "write_and_touch self fs now pos bytes =
     (case df_write (data_file fs) (f_start_pos (metas fs (file_meta self)) + pos) bytes of
        Inl e \<Rightarrow> (Inl e, self, fs)
      | Inr df \<Rightarrow>
          (case touch self (fs\<lparr>data_file := df\<rparr>) now of
             (Some e, fs1) \<Rightarrow> (Inl e, self, fs1)
           | (None, fs1) \<Rightarrow> (Inr (), self, fs1)))"

definition write_to_file_at ::
    "file_object \<Rightarrow> file_system \<Rightarrow> timestamp \<Rightarrow> int \<Rightarrow> pystr \<Rightarrow> unit outcome" where
  "write_to_file_at self fs now write_at txt =
     (if mode self \<noteq> ''w'' then (Inl WrongMode, self, fs)
      else if write_at < 0 then (Inl InvalidArgument, self, fs)
      else
        (case encode_utf8 txt of
           None \<Rightarrow> (Inl UnicodeError, self, fs)
         | Some text_bytes \<Rightarrow>
             (case extend_file self fs (write_at + int (length text_bytes)) of
                (Some e, fs1) \<Rightarrow> (Inl e, self, fs1)
              | (None, fs1) \<Rightarrow> write_and_touch self fs1 now write_at text_bytes)))"

definition read_from_file :: "file_object \<Rightarrow> pystr" where
  "read_from_file self = content self"

text \<open>The size a read or a move works with: \<^verbatim>\<open>size\<close> cut down to what the file
  holds after \<^verbatim>\<open>start\<close>.\<close>

definition clamp_size :: "file_object \<Rightarrow> file_system \<Rightarrow> int \<Rightarrow> int \<Rightarrow> int" where
  "clamp_size self fs start sz =
     (if start + sz > f_size (metas fs (file_meta self))
      then f_size (metas fs (file_meta self)) - start else sz)"

definition read_from_file_at :: "file_object \<Rightarrow> file_system \<Rightarrow> int \<Rightarrow> int \<Rightarrow> error + pystr" where
  "read_from_file_at self fs start sz =
     (if start < 0 \<or> sz < 0 then Inl InvalidArgument
      else if start \<ge> f_size (metas fs (file_meta self)) then Inr []
      else
        (case df_read (data_file fs) (f_start_pos (metas fs (file_meta self)) + start)
                (clamp_size self fs start sz) of
           Inl e \<Rightarrow> Inl e
         | Inr bs \<Rightarrow> (case decode_utf8 bs of None \<Rightarrow> Inl UnicodeError | Some cs \<Rightarrow> Inr cs)))"

definition move_within_file ::
    "file_object \<Rightarrow> file_system \<Rightarrow> timestamp \<Rightarrow> int \<Rightarrow> int \<Rightarrow> int \<Rightarrow> unit outcome" where
  "move_within_file self fs now start sz target =
     (if mode self \<noteq> ''w'' then (Inl WrongMode, self, fs)
      else if start < 0 \<or> sz < 0 \<or> target < 0 then (Inl InvalidArgument, self, fs)
      else if start \<ge> f_size (metas fs (file_meta self)) then (Inr (), self, fs)
      else
        (case df_read (data_file fs) (f_start_pos (metas fs (file_meta self)) + start)
                (clamp_size self fs start sz) of
           Inl e \<Rightarrow> (Inl e, self, fs)
         | Inr bytes \<Rightarrow>
             (case extend_file self fs
                     (max (f_size (metas fs (file_meta self)))
                          (target + clamp_size self fs start sz)) of
                (Some e, fs1) \<Rightarrow> (Inl e, self, fs1)
              | (None, fs1) \<Rightarrow> write_and_touch self fs1 now target bytes)))"

definition truncate_file :: "file_object \<Rightarrow> file_system \<Rightarrow> timestamp \<Rightarrow> int \<Rightarrow> unit outcome" where
  "truncate_file self fs now max_sz =
     (if mode self \<noteq> ''w'' then (Inl WrongMode, self, fs)
      else if max_sz < 0 then (Inl InvalidArgument, self, fs)
      else if f_size (metas fs (file_meta self)) \<le> max_sz then (Inr (), self, fs)
      else
        (case assign_size self fs max_sz of
           (Some e, fs1) \<Rightarrow> (Inl e, self, fs1)
         | (None, fs1) \<Rightarrow>
             (case touch self fs1 now of
                (Some e, fs2) \<Rightarrow> (Inl e, self, fs2)
              | (None, fs2) \<Rightarrow> (Inr (), self, fs2))))"

subsection \<open>FileSystem\<close>

definition create :: "file_system \<Rightarrow> timestamp \<Rightarrow> string \<Rightarrow> (error + bool) \<times> file_system" where
  "create fs now nm =
     (if files fs nm \<noteq> None then (Inl AlreadyExists, fs)
      else
        let fs1 = get_current_directory_meta fs now in
        (case allocate_space fs1 0 of
           (Inl e, fs2) \<Rightarrow> (Inl e, fs2)
         | (Inr start, fs2) \<Rightarrow>
             let r = next_meta fs2;
                 fs3 = fs2\<lparr>metas := (metas fs2)(r :=
                             \<lparr>f_name = nm, f_size = 0, f_creation_time = now,
                              f_modified_time = now, f_start_pos = start,
                              f_is_directory = False\<rparr>),
                           next_meta := Suc r\<rparr>;
                 fs4 = link_file fs3 (current_path fs3) nm
             in (Inr True, fs4\<lparr>files := (files fs4)(nm \<mapsto> r)\<rparr>)))"

definition delete :: "file_system \<Rightarrow> string \<Rightarrow> (error + bool) \<times> file_system" where
  "delete fs nm =
     (case files fs nm of
        None \<Rightarrow> (Inl NotFound, fs)
      | Some r \<Rightarrow>
          if open_files fs nm \<noteq> None then (Inl InUse, fs)
          else
            let fs1 = release_space fs (f_start_pos (metas fs r)) (f_size (metas fs r));
                fs2 = fs1\<lparr>directories := unlink_everywhere (directories fs1) nm\<rparr>
            in (Inr True, fs2\<lparr>files := (files fs2)(nm := None)\<rparr>))"

definition child_path :: "string \<Rightarrow> string \<Rightarrow> string" where
  "child_path cur nm = (if cur = ''/'' then ''/'' @ nm else cur @ ''/'' @ nm)"

definition mkdir :: "file_system \<Rightarrow> timestamp \<Rightarrow> string \<Rightarrow> (error + bool) \<times> file_system" where
  "mkdir fs now dir_name =
     (let new_dir_path = child_path (current_path fs) dir_name in
      if directories fs new_dir_path \<noteq> None then (Inl AlreadyExists, fs)
      else
        let fs1 = fs\<lparr>directories := (directories fs)(new_dir_path \<mapsto> new_dir dir_name now)\<rparr>;
            fs2 = get_current_directory_meta fs1 now
        in (Inr True,
            (case directories fs2 (current_path fs2) of
               None \<Rightarrow> fs2
             | Some parent_dir \<Rightarrow>
                 if dir_name \<in> set (d_subdirectories parent_dir) then fs2
                 else fs2\<lparr>directories := (directories fs2)(current_path fs2 \<mapsto>
                            parent_dir\<lparr>d_subdirectories :=
                                         d_subdirectories parent_dir @ [dir_name]\<rparr>)\<rparr>)))"

definition chdir :: "file_system \<Rightarrow> string \<Rightarrow> (error + bool) \<times> file_system" where
  "chdir fs dir_name =
     (if dir_name = ''.'' then (Inr True, fs)
      else if dir_name = ''..'' then
        (if current_path fs = ''/'' then (Inr True, fs)
         else
           let path_parts = path_parts_of (current_path fs);
               path_parts1 = (if path_parts \<noteq> [] then butlast path_parts else path_parts);
               p = ''/'' @ join_slash path_parts1
           in (Inr True, fs\<lparr>current_path := (if p = [] then ''/'' else p)\<rparr>))
      else if dir_name = ''/'' then (Inr True, fs\<lparr>current_path := ''/''\<rparr>)
      else
        let target_path = child_path (current_path fs) dir_name in
        if directories fs target_path = None then (Inl NotFound, fs)
        else (Inr True, fs\<lparr>current_path := target_path\<rparr>))"

text \<open>The loop of \<^verbatim>\<open>move\<close> that creates the chain of directories down to the target.\<close>

fun make_dirs ::
    "(string \<rightharpoonup> dir_meta) \<Rightarrow> timestamp \<Rightarrow> string \<Rightarrow> string list \<Rightarrow> (string \<rightharpoonup> dir_meta)" where
  "make_dirs dirs now cur [] = dirs"
| "make_dirs dirs now cur (part # parts) =
     (let cur1 = (if cur \<noteq> [] then cur @ ''/'' @ part else ''/'' @ part) in
      make_dirs
        (if dirs cur1 = None then
           (let dirs1 = dirs(cur1 \<mapsto> new_dir part now);
                parent = (if cur1 = ''/'' @ part then ''/'' else rsplit_slash_head cur1)
            in (case dirs1 parent of
                  None \<Rightarrow> dirs1
                | Some pd \<Rightarrow>
                    if part \<in> set (d_subdirectories pd) then dirs1
                    else dirs1(parent \<mapsto> pd\<lparr>d_subdirectories := d_subdirectories pd @ [part]\<rparr>)))
         else dirs)
        now cur1 parts)"

definition move :: "file_system \<Rightarrow> timestamp \<Rightarrow> string \<Rightarrow> string \<Rightarrow> (error + bool) \<times> file_system" where
  "move fs now source_fname target_dir =
     (if files fs source_fname = None then (Inl NotFound, fs)
      else if open_files fs source_fname \<noteq> None then (Inl InUse, fs)
      else
        let target_dir_path =
              rstrip_slash (if \<not> startswith_slash target_dir
                            then child_path (current_path fs) target_dir else target_dir);
            fs1 = (if directories fs target_dir_path = None
                   then fs\<lparr>directories :=
                             make_dirs (directories fs) now [] (path_parts_of target_dir_path)\<rparr>
                   else fs);
            fs2 = fs1\<lparr>directories := unlink_everywhere (directories fs1) source_fname\<rparr>
        in (case directories fs2 target_dir_path of
              None \<Rightarrow> (Inl KeyError, fs2)
            | Some d \<Rightarrow> (Inr True, link_file fs2 target_dir_path source_fname)))"

text \<open>\<^verbatim>\<open>FileSystem.open\<close> (\<open>open\<close> is reserved in Isabelle). It returns the new object; here, its address in \<open>objects\<close>.\<close>

definition open_file :: "file_system \<Rightarrow> timestamp \<Rightarrow> string \<Rightarrow> string \<Rightarrow> (error + nat) \<times> file_system" where
  "open_file fs now nm md =
     (if md \<noteq> ''r'' \<and> md \<noteq> ''w'' then (Inl InvalidArgument, fs)
      else
        (case file_object_init fs now nm md of
           (Inl e, fs1) \<Rightarrow> (Inl e, fs1)
         | (Inr file_obj, fs1) \<Rightarrow>
             let h = next_object fs1 in
             (Inr h,
              fs1\<lparr>objects := (objects fs1)(h \<mapsto> file_obj), next_object := Suc h,
                  open_files := (open_files fs1)(nm \<mapsto> h)\<rparr>)))"

definition close :: "file_system \<Rightarrow> string \<Rightarrow> (error + bool) \<times> file_system" where
  "close fs nm =
     (if open_files fs nm = None then (Inl NotOpen, fs)
      else (Inr True, fs\<lparr>open_files := (open_files fs)(nm := None)\<rparr>))"

subsection \<open>Sequences of calls\<close>

text \<open>
  A caller holds the objects that \<^verbatim>\<open>open\<close> returned and may call their methods at any
  time, also after \<^verbatim>\<open>close\<close>. A call names the object by its address; the object is
  stored back as the method left it. An address that \<^verbatim>\<open>open\<close> never handed out names no
  object, and a call on it is no call at all. The two reading methods change nothing.
\<close>

datatype op =
    Create string
  | Delete string
  | Mkdir string
  | Chdir string
  | Move string string
  | Open string string
  | Close string
  | Append nat pystr
  | WriteAt nat int pystr
  | ReadAll nat
  | ReadRange nat int int
  | MoveWithin nat int int int
  | Truncate nat int

definition call_method ::
    "file_system \<Rightarrow> nat \<Rightarrow> (file_object \<Rightarrow> file_system \<Rightarrow> unit outcome) \<Rightarrow> file_system" where
  "call_method fs h m =
     (case objects fs h of
        None \<Rightarrow> fs
      | Some self \<Rightarrow>
          (case m self fs of (_, self1, fs1) \<Rightarrow> fs1\<lparr>objects := (objects fs1)(h \<mapsto> self1)\<rparr>))"

fun step :: "file_system \<Rightarrow> timestamp \<times> op \<Rightarrow> file_system" where
  "step fs (now, Create nm) = snd (create fs now nm)"
| "step fs (now, Delete nm) = snd (delete fs nm)"
| "step fs (now, Mkdir nm) = snd (mkdir fs now nm)"
| "step fs (now, Chdir nm) = snd (chdir fs nm)"
| "step fs (now, Move nm dir) = snd (move fs now nm dir)"
| "step fs (now, Open nm md) = snd (open_file fs now nm md)"
| "step fs (now, Close nm) = snd (close fs nm)"
| "step fs (now, Append h txt) = call_method fs h (\<lambda>self fs. write_to_file self fs now txt)"
| "step fs (now, WriteAt h write_at txt) =
     call_method fs h (\<lambda>self fs. write_to_file_at self fs now write_at txt)"
| "step fs (now, ReadAll h) = fs"
| "step fs (now, ReadRange h start sz) = fs"
| "step fs (now, MoveWithin h start sz target) =
     call_method fs h (\<lambda>self fs. move_within_file self fs now start sz target)"
| "step fs (now, Truncate h max_sz) = call_method fs h (\<lambda>self fs. truncate_file self fs now max_sz)"

definition run :: "file_system \<Rightarrow> (timestamp \<times> op) list \<Rightarrow> file_system" where
  "run fs ops = foldl step fs ops"

section \<open>Derived quantities\<close>

text \<open>The bytes on the free list, and the quantity the volume conserves.\<close>

definition free_total :: "free_block list \<Rightarrow> int" where
  "free_total fl = sum_list (map snd fl)"

definition space_total :: "file_system \<Rightarrow> int" where
  "space_total fs = used_size fs + free_total (free_space fs)"

text \<open>What \<^verbatim>\<open>fs_metadata['files']\<close> holds: the record of each name.\<close>

definition file_table :: "file_system \<Rightarrow> string \<rightharpoonup> file_meta" where
  "file_table fs nm = map_option (metas fs) (files fs nm)"

text \<open>The size of the file an object is bound to, as its methods read it.\<close>

definition size_of :: "file_object \<Rightarrow> file_system \<Rightarrow> int" where
  "size_of self fs = f_size (metas fs (file_meta self))"

text \<open>
  What the methods of an object leave alone: every table of the volume, the free list,
  the used size, and in each file record everything but its size and its modification
  time. The file data and those two fields are all they can change.
\<close>

definition same_layout :: "file_system \<Rightarrow> file_system \<Rightarrow> bool" where
  "same_layout fs fs' =
     (max_size fs' = max_size fs \<and> used_size fs' = used_size fs \<and> files fs' = files fs
      \<and> directories fs' = directories fs \<and> free_space fs' = free_space fs
      \<and> open_files fs' = open_files fs \<and> current_path fs' = current_path fs
      \<and> next_meta fs' = next_meta fs \<and> objects fs' = objects fs
      \<and> next_object fs' = next_object fs
      \<and> (\<forall>r. f_start_pos (metas fs' r) = f_start_pos (metas fs r)
             \<and> f_name (metas fs' r) = f_name (metas fs r)
             \<and> f_creation_time (metas fs' r) = f_creation_time (metas fs r)
             \<and> f_is_directory (metas fs' r) = f_is_directory (metas fs r)))"

text \<open>
  What every volume reached from a fresh one satisfies: a name in \<^verbatim>\<open>open_files\<close> leads
  to an object that was handed out, carries that name and is bound to the record the
  file table holds for it; no start position is negative, in a record or on the free list.
\<close>

definition well_formed :: "file_system \<Rightarrow> bool" where
  "well_formed fs =
     ((\<forall>nm h. open_files fs nm = Some h \<longrightarrow>
         h < next_object fs
         \<and> (\<exists>obj. objects fs h = Some obj \<and> file_name obj = nm
                  \<and> files fs nm = Some (file_meta obj)))
      \<and> (\<forall>h obj. objects fs h = Some obj \<longrightarrow> h < next_object fs)
      \<and> (\<forall>r. 0 \<le> f_start_pos (metas fs r))
      \<and> (\<forall>b \<in> set (free_space fs). 0 \<le> fst b))"


text \<open>Code points of an ASCII literal.\<close>

definition ascii :: "string \<Rightarrow> pystr" where
  "ascii s = map of_char s"

text \<open>The bytes of an ASCII literal.\<close>

definition ascii_bytes :: "string \<Rightarrow> byte list" where
  "ascii_bytes s = map (\<lambda>c. of_nat (of_char c)) s"

text \<open>
  A volume of 1024 bytes on which \<^verbatim>\<open>a.txt\<close> was created, opened for writing and
  appended \<^verbatim>\<open>"abcd"\<close>, and the object that \<^verbatim>\<open>open\<close> returned, as the append left it.
\<close>

definition volume_abcd :: file_system where
  "volume_abcd =
     run (initialize 1024 0)
       [(1, Create ''a.txt''), (2, Open ''a.txt'' ''w''), (3, Append 0 (ascii ''abcd''))]"

definition handle_abcd :: file_object where
  "handle_abcd = \<lparr>file_name = ''a.txt'', mode = ''w'', file_meta = 0, content = ascii ''abcd''\<rparr>"







section \<open>The allocator on its own\<close>

text \<open>
  The merging loop of \<^verbatim>\<open>_release_space\<close> from index 0, as a recursion on the list: the
  loop never looks back at a block it has moved past.
\<close>

fun merge_list :: "free_block list \<Rightarrow> free_block list" where
  "merge_list (a # b # r) =
     (if fst a + snd a = fst b then merge_list ((fst a, snd a + snd b) # r)
      else a # merge_list (b # r))"
| "merge_list fl = fl"

text \<open>
  A free list whose blocks have non-negative lengths and each end strictly before the
  next begins (\<open>separated\<close>), or at or before it (\<open>ordered\<close>).
\<close>

fun separated :: "free_block list \<Rightarrow> bool" where
  "separated [] = True"
| "separated [a] = (0 \<le> snd a)"
| "separated (a # b # r) = (0 \<le> snd a \<and> fst a + snd a < fst b \<and> separated (b # r))"

fun ordered :: "free_block list \<Rightarrow> bool" where
  "ordered [] = True"
| "ordered [a] = (0 \<le> snd a)"
| "ordered (a # b # r) = (0 \<le> snd a \<and> fst a + snd a \<le> fst b \<and> ordered (b # r))"


text \<open>
  Calls of \<^verbatim>\<open>_allocate_space\<close> and \<^verbatim>\<open>_release_space\<close> in sequence. A sequence is
  disciplined when every allocation asks for a non-negative size and every release of a
  positive size returns a range that no block of the free list reaches into.
\<close>

datatype alloc_call = Allocate int | Release int int

fun alloc_step :: "file_system \<Rightarrow> alloc_call \<Rightarrow> file_system" where
  "alloc_step fs (Allocate sz) = snd (allocate_space fs sz)"
| "alloc_step fs (Release start sz) = release_space fs start sz"

definition alloc_run :: "file_system \<Rightarrow> alloc_call list \<Rightarrow> file_system" where
  "alloc_run fs calls = foldl alloc_step fs calls"

definition clear_of :: "free_block list \<Rightarrow> int \<Rightarrow> int \<Rightarrow> bool" where
  "clear_of fl start sz = list_all (\<lambda>b. fst b + snd b \<le> start \<or> start + sz \<le> fst b) fl"

fun disciplined :: "file_system \<Rightarrow> alloc_call list \<Rightarrow> bool" where
  "disciplined fs [] = True"
| "disciplined fs (Allocate sz # calls) =
     (0 \<le> sz \<and> disciplined (alloc_step fs (Allocate sz)) calls)"
| "disciplined fs (Release start sz # calls) =
     ((if 0 < sz then clear_of (free_space fs) start sz else True)
      \<and> disciplined (alloc_step fs (Release start sz)) calls)"

text \<open>Two ranges that share a byte.\<close>

definition overlaps :: "free_block \<Rightarrow> free_block \<Rightarrow> bool" where
  "overlaps a b = (fst a < fst b + snd b \<and> fst b < fst a + snd a)"




section \<open>Evaluation and frame lemmas\<close>

lemmas eval_defs = run_def initialize_def create_def open_file_def file_object_init_def
  allocate_space_def get_current_directory_meta_def link_file_def new_dir_def pop_def
  call_method_def df_read_def df_write_def decode_utf8_def rstrip_nul_def Let_def
  write_to_file_at_def extend_file_def assign_size_def touch_def write_and_touch_def
  set_size_def set_modified_time_def size_of_def file_table_def truncate_file_def
  write_to_file_def close_def delete_def release_space_def unlink_everywhere_def
  move_within_file_def clamp_size_def encode_char_def ascii_def mkdir_def chdir_def
  child_path_def move_def read_from_file_at_def read_from_file_def ascii_bytes_def

section \<open>The space invariant\<close>


lemma best_fit_Some:
  "best_fit fl sz k best = Some (i, s) \<Longrightarrow>
   best = Some (i, s) \<or> (k \<le> i \<and> i < k + length fl \<and> snd (fl ! (i - k)) = s \<and> sz \<le> s)"
proof (induction fl arbitrary: k best)
  case Nil
  then show ?case by simp
next
  case (Cons b fl)
  obtain st fsz where b: "b = (st, fsz)" by (cases b)
  from Cons.prems b
  have "best_fit fl sz (Suc k)
          (if fsz \<ge> sz \<and> (case best of None \<Rightarrow> True | Some (_, bs) \<Rightarrow> fsz < bs)
           then Some (k, fsz) else best) = Some (i, s)" by simp
  from Cons.IH [OF this] show ?case
    by (auto simp: b nth_Cons' split: if_splits)
qed

lemma free_total_pop: "i < length fl \<Longrightarrow> free_total (pop i fl) = free_total fl - snd (fl ! i)"
proof -
  assume "i < length fl"
  then have "fl = take i fl @ fl ! i # drop (Suc i) fl" by (rule id_take_nth_drop)
  then have "free_total fl = free_total (take i fl) + snd (fl ! i) + free_total (drop (Suc i) fl)"
    unfolding free_total_def by (metis (no_types, lifting) add.assoc list.simps(9) map_append sum_list.Cons sum_list.append)
  then show ?thesis by (simp add: pop_def free_total_def)
qed

lemma free_total_update:
  "i < length fl \<Longrightarrow> free_total (fl[i := b]) = free_total fl - snd (fl ! i) + snd b"
  by (induction fl arbitrary: i) (auto simp: free_total_def split: nat.splits)

lemma free_total_merge_adjacent: "free_total (merge_adjacent fl i) = free_total fl"
proof (induction fl i rule: merge_adjacent.induct)
  case (1 fl i)
  show ?case
  proof (cases "i + 1 < length fl")
    case False
    then show ?thesis by (simp add: merge_adjacent.simps [of fl i])
  next
    case True
    obtain cs csz where c: "fl ! i = (cs, csz)" by (cases "fl ! i")
    obtain ns nsz where n: "fl ! (i + 1) = (ns, nsz)" by (cases "fl ! (i + 1)")
    show ?thesis
    proof (cases "cs + csz = ns")
      case False
      with True c n 1(2) show ?thesis by (simp add: merge_adjacent.simps [of fl i])
    next
      case eq: True
      have "free_total (merge_adjacent fl i) =
            free_total (pop (i + 1) (fl[i := (cs, csz + nsz)]))"
        using True c n eq 1(1) by (simp add: merge_adjacent.simps [of fl i])
      also have "\<dots> = free_total (fl[i := (cs, csz + nsz)]) - nsz"
        using True n by (simp add: free_total_pop)
      also have "\<dots> = free_total fl"
        using True c by (simp add: free_total_update)
      finally show ?thesis .
    qed
  qed
qed

lemma free_total_insort: "free_total (insort b fl) = snd b + free_total fl"
  by (induction fl) (auto simp: free_total_def)

lemma free_total_sort: "free_total (sort fl) = free_total fl"
  by (induction fl) (auto simp: free_total_insort, simp add: free_total_def)



lemma space_total_allocate_space:
  "allocate_space fs sz = (r, fs') \<Longrightarrow> space_total fs' = space_total fs"
proof -
  assume a: "allocate_space fs sz = (r, fs')"
  show ?thesis
  proof (cases "free_space fs = [] \<or> best_fit (free_space fs) sz 0 None = None")
    case True
    with a show ?thesis by (auto simp: allocate_space_def split: if_splits)
  next
    case False
    then obtain i s where bf: "best_fit (free_space fs) sz 0 None = Some (i, s)" by auto
    from best_fit_Some [OF bf] have i: "i < length (free_space fs)" and s: "snd (free_space fs ! i) = s"
      by auto
    obtain st fsz where b: "free_space fs ! i = (st, fsz)" by (cases "free_space fs ! i")
    from a False bf b i show ?thesis
      by (auto simp: allocate_space_def space_total_def free_total_pop free_total_update
            split: if_splits)
  qed
qed

lemma space_total_release_space: "space_total (release_space fs start sz) = space_total fs"
  by (simp add: release_space_def space_total_def free_total_merge_adjacent free_total_sort)
     (simp add: free_total_def)

lemma space_total_frame [simp]:
  "space_total (set_size fs r n) = space_total fs"
  "space_total (set_modified_time fs r t) = space_total fs"
  "space_total (get_current_directory_meta fs now) = space_total fs"
  "space_total (link_file fs path nm) = space_total fs"
  "space_total (fs\<lparr>directories := ds\<rparr>) = space_total fs"
  "space_total (fs\<lparr>files := fm\<rparr>) = space_total fs"
  "space_total (fs\<lparr>metas := ms\<rparr>) = space_total fs"
  "space_total (fs\<lparr>next_meta := k\<rparr>) = space_total fs"
  "space_total (fs\<lparr>objects := os\<rparr>) = space_total fs"
  "space_total (fs\<lparr>next_object := k\<rparr>) = space_total fs"
  "space_total (fs\<lparr>open_files := opn\<rparr>) = space_total fs"
  "space_total (fs\<lparr>current_path := cp\<rparr>) = space_total fs"
  "space_total (fs\<lparr>data_file := df\<rparr>) = space_total fs"
  by (simp_all add: space_total_def set_size_def set_modified_time_def
        get_current_directory_meta_def link_file_def split: option.splits)

lemma space_total_create: "space_total (snd (create fs now nm)) = space_total fs"
  by (auto simp: create_def Let_def split: prod.splits sum.splits dest: space_total_allocate_space)

lemma space_total_delete: "space_total (snd (delete fs nm)) = space_total fs"
  by (auto simp: delete_def Let_def space_total_release_space split: option.splits)

lemma space_total_mkdir: "space_total (snd (mkdir fs now nm)) = space_total fs"
  by (auto simp: mkdir_def Let_def split: option.splits)

lemma space_total_chdir: "space_total (snd (chdir fs nm)) = space_total fs"
  by (auto simp: chdir_def Let_def)

lemma space_total_move: "space_total (snd (move fs now nm dir)) = space_total fs"
  by (auto simp: move_def Let_def split: option.splits)

lemma space_total_file_object_init:
  "space_total (snd (file_object_init fs now nm md)) = space_total fs"
  by (auto simp: file_object_init_def Let_def split: option.splits prod.splits sum.splits
        dest: space_total_allocate_space)

lemma space_total_open_file: "space_total (snd (open_file fs now nm md)) = space_total fs"
  using space_total_file_object_init [of fs now nm md]
  by (auto simp: open_file_def Let_def split: prod.splits sum.splits)

lemma space_total_close: "space_total (snd (close fs nm)) = space_total fs"
  by (auto simp: close_def)

lemma space_total_write_to_file:
  "space_total (snd (snd (write_to_file self fs now txt))) = space_total fs"
  by (auto simp: write_to_file_def Let_def split: option.splits sum.splits)

lemma space_total_assign_size:
  "assign_size self fs n = (e, fs') \<Longrightarrow> space_total fs' = space_total fs"
  by (auto simp: assign_size_def Let_def split: option.splits)

lemma space_total_extend_file:
  "extend_file self fs n = (e, fs') \<Longrightarrow> space_total fs' = space_total fs"
  by (auto simp: extend_file_def split: if_splits dest: space_total_assign_size)

lemma space_total_touch:
  "touch self fs now = (e, fs') \<Longrightarrow> space_total fs' = space_total fs"
  by (auto simp: touch_def Let_def split: option.splits)

lemma space_total_write_and_touch:
  "space_total (snd (snd (write_and_touch self fs now pos bytes))) = space_total fs"
  by (auto simp: write_and_touch_def split: sum.splits prod.splits option.splits
        dest: space_total_touch)

lemma space_total_write_to_file_at:
  "space_total (snd (snd (write_to_file_at self fs now write_at txt))) = space_total fs"
  by (auto simp: write_to_file_at_def space_total_write_and_touch
        split: option.splits prod.splits dest: space_total_extend_file)

lemma space_total_move_within_file:
  "space_total (snd (snd (move_within_file self fs now start sz target))) = space_total fs"
  by (auto simp: move_within_file_def space_total_write_and_touch
        split: option.splits prod.splits sum.splits dest: space_total_extend_file)

lemma space_total_truncate_file:
  "space_total (snd (snd (truncate_file self fs now max_sz))) = space_total fs"
  by (auto simp: truncate_file_def split: option.splits prod.splits
        dest!: space_total_assign_size space_total_touch)

lemma space_total_call_method:
  "(\<And>self fs. space_total (snd (snd (m self fs))) = space_total fs) \<Longrightarrow>
   space_total (call_method fs h m) = space_total fs"
  by (auto simp: call_method_def split: option.splits prod.splits) (metis snd_conv)

lemma space_total_step: "space_total (step fs c) = space_total fs"
proof (cases c)
  case (Pair now o')
  then show ?thesis
    by (cases o')
       (simp_all add: space_total_create space_total_delete space_total_mkdir space_total_chdir
          space_total_move space_total_open_file space_total_close space_total_call_method
          space_total_write_to_file space_total_write_to_file_at space_total_move_within_file
          space_total_truncate_file)
qed

lemma space_total_run: "space_total (run fs ops) = space_total fs"
  unfolding run_def by (induction ops arbitrary: fs) (simp_all add: space_total_step)

lemma space_total_initialize: "space_total (initialize cap now) = cap"
  by (simp add: space_total_def initialize_def free_total_def)

text \<open>
  Claim C1. After any sequence of calls on a fresh volume (create, delete, mkdir, chdir,
  move, open, close, and append, positional write, move within the file and truncate on
  any object handed out by open), the used size plus the lengths of all blocks of the
  free list is the capacity the volume was created with.
\<close>

theorem used_plus_free_is_capacity:
  "used_size (run (initialize cap now) ops)
     + sum_list (map snd (free_space (run (initialize cap now) ops))) = cap"
  using space_total_run [of "initialize cap now" ops] space_total_initialize [of cap now]
  by (simp add: space_total_def free_total_def)

theorem used_plus_free_is_capacity_witness:
  "used_size (run (initialize 1024 0)
       [(1, Create ''a.txt''), (2, Open ''a.txt'' ''w''), (3, Append 0 [97, 98, 99, 100]),
        (4, Close ''a.txt''), (5, Delete ''a.txt'')])
     + sum_list (map snd (free_space (run (initialize 1024 0)
       [(1, Create ''a.txt''), (2, Open ''a.txt'' ''w''), (3, Append 0 [97, 98, 99, 100]),
        (4, Close ''a.txt''), (5, Delete ''a.txt'')]))) = 1024"
  by (rule used_plus_free_is_capacity)

section \<open>What the methods of an object change\<close>

lemma same_layout_refl [simp]: "same_layout fs fs"
  by (simp add: same_layout_def)

lemma same_layout_trans: "same_layout a b \<Longrightarrow> same_layout b c \<Longrightarrow> same_layout a c"
  by (simp add: same_layout_def)

lemma same_layout_set_size [simp]: "same_layout fs (set_size fs r n)"
  by (simp add: same_layout_def set_size_def)

lemma same_layout_set_modified_time [simp]: "same_layout fs (set_modified_time fs r t)"
  by (simp add: same_layout_def set_modified_time_def)


lemma same_layout_assign_size: "assign_size self fs n = (e, fs') \<Longrightarrow> same_layout fs fs'"
  by (auto simp: assign_size_def Let_def split: option.splits
        intro: same_layout_trans [OF same_layout_set_size same_layout_set_size])


lemma same_layout_touch: "touch self fs now = (e, fs') \<Longrightarrow> same_layout fs fs'"
  by (auto simp: touch_def Let_def split: option.splits
        intro: same_layout_trans [OF same_layout_set_modified_time same_layout_set_modified_time])


lemma same_layout_truncate_file:
  "truncate_file self fs now max_sz = (r, self', fs') \<Longrightarrow> same_layout fs fs' \<and> self' = self"
  by (auto simp: truncate_file_def split: if_splits prod.splits option.splits
        dest!: same_layout_assign_size same_layout_touch intro: same_layout_trans)




text \<open>Sizes through the shared pieces.\<close>

lemma size_of_assign_size: "assign_size self fs n = (e, fs') \<Longrightarrow> size_of self fs' = n"
  by (auto simp: assign_size_def Let_def size_of_def set_size_def split: option.splits)

lemma assign_size_bound:
  "files fs (file_name self) = Some r \<Longrightarrow>
   assign_size self fs n = (None, set_size (set_size fs (file_meta self) n) r n)"
  by (simp add: assign_size_def Let_def set_size_def)

lemma f_size_touch: "touch self fs now = (e, fs') \<Longrightarrow> f_size (metas fs' r) = f_size (metas fs r)"
  by (auto simp: touch_def Let_def set_modified_time_def split: option.splits)

lemma touch_bound:
  "files fs (file_name self) = Some r \<Longrightarrow> \<exists>fs'. touch self fs now = (None, fs')"
  by (simp add: touch_def Let_def set_modified_time_def)


lemma volume_abcd_objects: "objects volume_abcd 0 = Some handle_abcd"
  by (simp add: volume_abcd_def handle_abcd_def eval_defs)

lemma volume_abcd_files: "files volume_abcd ''a.txt'' = Some 0"
  by (simp add: volume_abcd_def eval_defs)

lemma volume_abcd_meta:
  "metas volume_abcd 0 = \<lparr>f_name = ''a.txt'', f_size = 4, f_creation_time = 1,
      f_modified_time = 3, f_start_pos = 0, f_is_directory = False\<rparr>"
  by (simp add: volume_abcd_def eval_defs)

lemma volume_abcd_space: "free_space volume_abcd = [(0, 1024)] \<and> used_size volume_abcd = 0"
  by (simp add: volume_abcd_def eval_defs)

lemma volume_abcd_size: "size_of handle_abcd volume_abcd = 4"
  by (simp add: size_of_def handle_abcd_def volume_abcd_meta)






section \<open>Truncation\<close>

text \<open>
  Claim C7, as amended. For an object opened for writing, \<^verbatim>\<open>truncate_file(max_size)\<close> with
  a non-negative \<^verbatim>\<open>max_size\<close> returns without any change when the size is at most
  \<^verbatim>\<open>max_size\<close>, and otherwise sets the size to \<^verbatim>\<open>max_size\<close>, in the object's record
  and, for an object bound to the record of its name, in the file table. A negative
  \<^verbatim>\<open>max_size\<close> raises \<^verbatim>\<open>ValueError\<close> and changes nothing. In every case the start
  position of every record, the free list and the used size stay as they were, and a
  second call with the same \<^verbatim>\<open>max_size\<close> leaves the size the first call produced.
\<close>

theorem truncate_file_sets_size_only:
  assumes "mode self = ''w''"
  shows "(max_sz < 0 \<longrightarrow> truncate_file self fs now max_sz = (Inl InvalidArgument, self, fs))
    \<and> (0 \<le> max_sz \<and> size_of self fs \<le> max_sz \<longrightarrow>
         truncate_file self fs now max_sz = (Inr (), self, fs))
    \<and> (0 \<le> max_sz \<and> max_sz < size_of self fs \<longrightarrow>
         size_of self (snd (snd (truncate_file self fs now max_sz))) = max_sz)
    \<and> (0 \<le> max_sz \<and> max_sz < size_of self fs \<and> files fs (file_name self) = Some (file_meta self) \<longrightarrow>
         fst (truncate_file self fs now max_sz) = Inr ()
         \<and> map_option f_size (file_table (snd (snd (truncate_file self fs now max_sz))) (file_name self))
             = Some max_sz)
    \<and> (\<forall>r. f_start_pos (metas (snd (snd (truncate_file self fs now max_sz))) r)
             = f_start_pos (metas fs r))
    \<and> free_space (snd (snd (truncate_file self fs now max_sz))) = free_space fs
    \<and> used_size (snd (snd (truncate_file self fs now max_sz))) = used_size fs
    \<and> size_of self (snd (snd (truncate_file self
           (snd (snd (truncate_file self fs now max_sz))) now' max_sz)))
        = size_of self (snd (snd (truncate_file self fs now max_sz)))"
proof -
  obtain res self' fs' where t: "truncate_file self fs now max_sz = (res, self', fs')"
    by (cases "truncate_file self fs now max_sz")
  from same_layout_truncate_file [OF t] have lay: "same_layout fs fs'" and self': "self' = self"
    by simp_all
  have neg: "max_sz < 0 \<longrightarrow> truncate_file self fs now max_sz = (Inl InvalidArgument, self, fs)"
    using assms by (simp add: truncate_file_def)
  have small: "0 \<le> max_sz \<and> size_of self fs \<le> max_sz \<longrightarrow>
      truncate_file self fs now max_sz = (Inr (), self, fs)"
    using assms by (simp add: truncate_file_def size_of_def)
  have big: "size_of self fs' = max_sz" if "0 \<le> max_sz" "max_sz < size_of self fs"
    using assms that t
    by (auto simp: truncate_file_def size_of_def split: prod.splits option.splits
          dest!: size_of_assign_size f_size_touch)
  have bound: "fst (truncate_file self fs now max_sz) = Inr ()
      \<and> map_option f_size (file_table fs' (file_name self)) = Some max_sz"
    if "0 \<le> max_sz" "max_sz < size_of self fs" "files fs (file_name self) = Some (file_meta self)"
  proof -
    let ?fs1 = "set_size (set_size fs (file_meta self) max_sz) (file_meta self) max_sz"
    have a: "assign_size self fs max_sz = (None, ?fs1)"
      using that(3) by (rule assign_size_bound)
    have "files ?fs1 (file_name self) = Some (file_meta self)"
      using that(3) by (simp add: set_size_def)
    from touch_bound [OF this] obtain fs2 where b: "touch self ?fs1 now = (None, fs2)" by blast
    have r: "truncate_file self fs now max_sz = (Inr (), self, fs2)"
      using assms that a b by (simp add: truncate_file_def size_of_def)
    with t have "fs' = fs2" by simp
    moreover have "files fs' = files fs" using lay by (simp add: same_layout_def)
    ultimately show ?thesis
      using r big [OF that(1,2)] that(3) by (simp add: file_table_def size_of_def)
  qed
  have again: "size_of self (snd (snd (truncate_file self fs' now' max_sz))) = size_of self fs'"
  proof (cases "0 \<le> max_sz \<and> max_sz < size_of self fs")
    case True
    then have "size_of self fs' = max_sz" using big by simp
    then show ?thesis using assms True by (simp add: truncate_file_def size_of_def)
  next
    case False
    then have "fs' = fs" using neg small t by auto
    then show ?thesis using assms False by (auto simp: truncate_file_def size_of_def)
  qed
  show ?thesis
    using neg small big bound again lay unfolding t by (simp add: same_layout_def self')
qed

theorem truncate_file_sets_size_only_witness:
  "mode handle_abcd = ''w'' \<and> size_of handle_abcd volume_abcd = 4
   \<and> files volume_abcd (file_name handle_abcd) = Some (file_meta handle_abcd)
   \<and> fst (truncate_file handle_abcd volume_abcd 4 2) = Inr ()
   \<and> size_of handle_abcd (snd (snd (truncate_file handle_abcd volume_abcd 4 2))) = 2
   \<and> free_space (snd (snd (truncate_file handle_abcd volume_abcd 4 2))) = [(0, 1024)]
   \<and> used_size (snd (snd (truncate_file handle_abcd volume_abcd 4 2))) = 0"
proof -
  have m: "mode handle_abcd = ''w''" by (simp add: handle_abcd_def)
  have f: "files volume_abcd (file_name handle_abcd) = Some (file_meta handle_abcd)"
    by (simp add: handle_abcd_def volume_abcd_files)
  show ?thesis
    using truncate_file_sets_size_only [OF m, of 2 volume_abcd 4 5] m f
    by (simp add: volume_abcd_size volume_abcd_space)
qed


text \<open>
  The claim as stated, without the restriction to a non-negative \<^verbatim>\<open>max_size\<close>, fails:
  on a file of size 4, \<^verbatim>\<open>truncate_file(-1)\<close> raises and the size stays 4, where the claim
  has the size set to \<open>-1\<close>.
\<close>

theorem truncate_negative_counterexample:
  "objects volume_abcd 0 = Some handle_abcd \<and> mode handle_abcd = ''w''
   \<and> size_of handle_abcd volume_abcd = 4
   \<and> truncate_file handle_abcd volume_abcd 4 (- 1) = (Inl InvalidArgument, handle_abcd, volume_abcd)
   \<and> size_of handle_abcd (snd (snd (truncate_file handle_abcd volume_abcd 4 (- 1)))) \<noteq> - 1"
  by (simp add: volume_abcd_objects size_of_def truncate_file_def handle_abcd_def
        volume_abcd_meta)


section \<open>Positional write\<close>






section \<open>Changing directory\<close>

text \<open>
  Claim C9. Every call of \<^verbatim>\<open>chdir\<close>, whatever its argument and whether it returns or
  raises, leaves the volume as it was but for the current path: the file table, the
  directories, the free list and the used size are unchanged. When it raises, the
  error is the one for a missing directory and the current path is unchanged too.
\<close>

theorem chdir_moves_only_the_cursor:
  "snd (chdir fs dir_name) = fs\<lparr>current_path := current_path (snd (chdir fs dir_name))\<rparr>
   \<and> file_table (snd (chdir fs dir_name)) = file_table fs
   \<and> directories (snd (chdir fs dir_name)) = directories fs
   \<and> free_space (snd (chdir fs dir_name)) = free_space fs
   \<and> used_size (snd (chdir fs dir_name)) = used_size fs
   \<and> (\<forall>e. fst (chdir fs dir_name) = Inl e \<longrightarrow> e = NotFound \<and> snd (chdir fs dir_name) = fs)"
  by (simp add: chdir_def Let_def file_table_def fun_eq_iff)

theorem chdir_moves_only_the_cursor_witness:
  "fst (chdir volume_abcd ''docs'') = Inl NotFound
   \<and> snd (chdir volume_abcd ''docs'') = volume_abcd
   \<and> file_table (snd (chdir volume_abcd ''..'')) = file_table volume_abcd
   \<and> free_space (snd (chdir volume_abcd ''..'')) = [(0, 1024)]"
proof -
  have "fst (chdir volume_abcd ''docs'') = Inl NotFound"
    by (simp add: chdir_def child_path_def volume_abcd_def eval_defs)
  with chdir_moves_only_the_cursor [of volume_abcd "''docs''"]
       chdir_moves_only_the_cursor [of volume_abcd "''..''"]
  show ?thesis by (simp add: volume_abcd_space)
qed

section \<open>Moving bytes within a file\<close>
















section \<open>Decoding\<close>







section \<open>Volumes reached from a fresh one\<close>










lemma dir_ops_fields [simp]:
  "files (get_current_directory_meta fs now) = files fs"
  "open_files (get_current_directory_meta fs now) = open_files fs"
  "metas (get_current_directory_meta fs now) = metas fs"
  "next_meta (get_current_directory_meta fs now) = next_meta fs"
  "current_path (get_current_directory_meta fs now) = current_path fs"
  "files (link_file fs path nm) = files fs"
  "open_files (link_file fs path nm) = open_files fs"
  "metas (link_file fs path nm) = metas fs"
  "next_meta (link_file fs path nm) = next_meta fs"
  "current_path (link_file fs path nm) = current_path fs"
  by (simp_all add: get_current_directory_meta_def link_file_def split: option.splits)



lemma well_formed_dirs [simp]:
  "well_formed (fs\<lparr>directories := ds\<rparr>) = well_formed fs"
  "well_formed (get_current_directory_meta fs now) = well_formed fs"
  "well_formed (link_file fs path nm) = well_formed fs"
  "well_formed (fs\<lparr>current_path := cp\<rparr>) = well_formed fs"
  by (simp_all add: well_formed_def get_current_directory_meta_def link_file_def
        split: option.splits)




lemma release_space_fields [simp]:
  "files (release_space fs start sz) = files fs"
  "open_files (release_space fs start sz) = open_files fs"
  "objects (release_space fs start sz) = objects fs"
  "next_object (release_space fs start sz) = next_object fs"
  "metas (release_space fs start sz) = metas fs"
  by (simp_all add: release_space_def)
















section \<open>Opening an existing file\<close>























section \<open>Best fit\<close>

lemma merge_adjacent_merge_list: "merge_adjacent fl i = take i fl @ merge_list (drop i fl)"
proof (induction fl i rule: merge_adjacent.induct)
  case (1 fl i)
  show ?case
  proof (cases "i + 1 < length fl")
    case False
    then have "drop i fl = [] \<or> (\<exists>a. drop i fl = [a])"
      by (cases "drop i fl"; cases "tl (drop i fl)")
         (auto simp: drop_Suc [symmetric] dest!: arg_cong [where f = length])
    then have "merge_list (drop i fl) = drop i fl" by auto
    then show ?thesis using False by (simp add: merge_adjacent.simps [of fl i])
  next
    case True
    obtain cs csz where c: "fl ! i = (cs, csz)" by (cases "fl ! i")
    obtain ns nsz where n: "fl ! (i + 1) = (ns, nsz)" by (cases "fl ! (i + 1)")
    have d: "drop i fl = (cs, csz) # (ns, nsz) # drop (i + 2) fl"
      using True c n by (metis Cons_nth_drop_Suc Suc_eq_plus1 Suc_lessD add_2_eq_Suc')
    show ?thesis
    proof (cases "cs + csz = ns")
      case False
      have "merge_adjacent fl i = merge_adjacent fl (i + 1)"
        using True c n False by (simp add: merge_adjacent.simps [of fl i])
      also have "\<dots> = take (i + 1) fl @ merge_list (drop (i + 1) fl)"
        using 1(2) [OF True _ c [symmetric] n [symmetric] False] by simp
      also have "take (i + 1) fl = take i fl @ [(cs, csz)]"
        using True c by (simp add: take_Suc_conv_app_nth)
      also have "drop (i + 1) fl = (ns, nsz) # drop (i + 2) fl"
        using d by (metis Suc_eq_plus1 drop_Suc list.sel(3) tl_drop)
      finally show ?thesis using d False by simp
    next
      case eq: True
      let ?fl = "pop (i + 1) (fl[i := (cs, csz + nsz)])"
      have t: "take i ?fl = take i fl" using True by (simp add: pop_def)
      have dr: "drop i ?fl = (cs, csz + nsz) # drop (i + 2) fl"
        using True by (simp add: pop_def drop_take upd_conv_take_nth_drop min_def)
      have "merge_adjacent fl i = merge_adjacent ?fl i"
        using True c n eq by (simp add: merge_adjacent.simps [of fl i])
      also have "\<dots> = take i ?fl @ merge_list (drop i ?fl)"
        using 1(1) [OF True _ c [symmetric] n [symmetric] eq] by simp
      finally show ?thesis using t dr d eq by simp
    qed
  qed
qed


lemma separated_ordered: "separated fl \<Longrightarrow> ordered fl"
  by (induction fl rule: separated.induct) auto

lemma ordered_tail: "ordered (a # fl) \<Longrightarrow> ordered fl"
  by (cases fl) auto

lemma separated_tail: "separated (a # fl) \<Longrightarrow> separated fl"
  by (cases fl) auto

lemma ordered_ge: "ordered (a # fl) \<Longrightarrow> b \<in> set fl \<Longrightarrow> fst a + snd a \<le> fst b \<and> 0 \<le> snd b"
proof (induction fl arbitrary: a)
  case Nil
  then show ?case by simp
next
  case (Cons c fl)
  from Cons.prems(1) have 1: "fst a + snd a \<le> fst c" "0 \<le> snd c" "ordered (c # fl)"
    by (cases fl; auto)+
  show ?case
  proof (cases "b = c")
    case True
    with 1 show ?thesis by simp
  next
    case False
    with Cons.prems(2) have "b \<in> set fl" by simp
    from Cons.IH [OF 1(3) this] 1 show ?thesis by simp
  qed
qed

lemma ordered_sorted: "ordered fl \<Longrightarrow> sorted fl"
proof (induction fl)
  case Nil
  then show ?case by simp
next
  case (Cons a fl)
  have "a \<le> b" if "b \<in> set fl" for b
  proof -
    from ordered_ge [OF Cons.prems that] have "fst a + snd a \<le> fst b" "0 \<le> snd b" by simp_all
    moreover have "0 \<le> snd a" using Cons.prems by (cases fl) auto
    ultimately have "fst a < fst b \<or> (fst a = fst b \<and> snd a = 0)" by linarith
    then show ?thesis using \<open>0 \<le> snd b\<close> by (auto simp: less_eq_prod_def)
  qed
  then show ?case using Cons.IH ordered_tail [OF Cons.prems] by simp
qed

lemma sort_snoc_insort: "sorted xs \<Longrightarrow> sort (xs @ [x]) = insort x xs"
proof (induction xs)
  case Nil
  then show ?case by simp
next
  case (Cons a xs)
  then have "sort ((a # xs) @ [x]) = insort a (insort x xs)" by simp
  also have "\<dots> = insort x (insort a xs)" by (rule insort_left_comm)
  also have "insort a xs = a # xs" using Cons.prems by (simp add: insort_is_Cons)
  finally show ?case .
qed


lemma ordered_ConsI:
  "0 \<le> snd a \<Longrightarrow> ordered xs \<Longrightarrow> \<forall>c \<in> set xs. fst a + snd a \<le> fst c \<Longrightarrow> ordered (a # xs)"
  by (cases xs) auto

lemma ordered_insort:
  assumes "ordered fl" and "0 \<le> snd b"
    and "\<forall>c \<in> set fl. fst c + snd c \<le> fst b \<or> fst b + snd b \<le> fst c"
  shows "ordered (insort b fl)"
  using assms
proof (induction fl)
  case Nil
  then show ?case by simp
next
  case (Cons a fl)
  have a0: "0 \<le> snd a" using Cons.prems(1) by (cases fl) auto
  have dis: "fst a + snd a \<le> fst b \<or> fst b + snd b \<le> fst a" using Cons.prems(3) by simp
  show ?case
  proof (cases "b \<le> a")
    case True
    then have "fst b < fst a \<or> (fst b = fst a \<and> snd b \<le> snd a)"
      by (auto simp: less_eq_prod_def)
    with dis a0 Cons.prems(2) have "fst b + snd b \<le> fst a" by auto
    then have "ordered (b # a # fl)" using Cons.prems(1,2) by simp
    then show ?thesis using True by simp
  next
    case False
    then have "fst a < fst b \<or> (fst a = fst b \<and> snd a < snd b)"
      by (auto simp: less_eq_prod_def)
    with dis a0 Cons.prems(2) have ab: "fst a + snd a \<le> fst b" by auto
    have "ordered (insort b fl)"
      using Cons.IH ordered_tail [OF Cons.prems(1)] Cons.prems(2,3) by simp
    moreover have "\<forall>c \<in> set (insort b fl). fst a + snd a \<le> fst c"
      using ab ordered_ge [OF Cons.prems(1)] by (auto simp: set_insort_key)
    ultimately have "ordered (a # insort b fl)" using a0 by (intro ordered_ConsI)
    then show ?thesis using False by simp
  qed
qed

lemma merge_list_head: "\<exists>c r'. merge_list (b # r) = c # r' \<and> fst c = fst b"
proof (induction r arbitrary: b)
  case Nil
  then show ?case by simp
next
  case (Cons c r)
  show ?case
  proof (cases "fst b + snd b = fst c")
    case True
    with Cons [of "(fst b, snd b + snd c)"] show ?thesis by simp
  next
    case False
    then show ?thesis by simp
  qed
qed

lemma separated_merge_list: "ordered fl \<Longrightarrow> separated (merge_list fl)"
proof (induction fl rule: merge_list.induct)
  case (1 a b r)
  from "1.prems" have a0: "0 \<le> snd a" and ab: "fst a + snd a \<le> fst b" and t: "ordered (b # r)"
    by simp_all
  have b0: "0 \<le> snd b" using t by (cases r) auto
  show ?case
  proof (cases "fst a + snd a = fst b")
    case True
    have "ordered ((fst a, snd a + snd b) # r)"
      using t a0 b0 True by (cases r) auto
    from "1.IH"(1) [OF True this] show ?thesis using True by simp
  next
    case False
    from "1.IH"(2) [OF False t] have s: "separated (merge_list (b # r))" .
    from merge_list_head obtain c r' where h: "merge_list (b # r) = c # r'" and c: "fst c = fst b"
      by blast
    show ?thesis using False s a0 ab c unfolding merge_list.simps(1) h by simp
  qed
qed simp_all

lemma separated_release:
  assumes "separated fl" and "0 < sz"
    and "\<forall>c \<in> set fl. fst c + snd c \<le> start \<or> start + sz \<le> fst c"
  shows "separated (merge_adjacent (sort (fl @ [(start, sz)])) 0)"
proof -
  have o: "ordered fl" using assms(1) by (rule separated_ordered)
  then have "sort (fl @ [(start, sz)]) = insort (start, sz) fl"
    by (intro sort_snoc_insort ordered_sorted)
  moreover have "ordered (insort (start, sz) fl)"
    using o assms(2,3) by (intro ordered_insort) auto
  ultimately show ?thesis by (simp add: merge_adjacent_merge_list separated_merge_list)
qed


lemma separated_nonneg: "separated fl \<Longrightarrow> b \<in> set fl \<Longrightarrow> 0 \<le> snd b"
  by (induction fl rule: separated.induct) auto

lemma separated_drop_second: "separated (a # b # r) \<Longrightarrow> separated (a # r)"
  by (cases r) auto

lemma separated_pop: "separated fl \<Longrightarrow> separated (pop i fl)"
proof (induction fl arbitrary: i)
  case Nil
  then show ?case by (simp add: pop_def)
next
  case (Cons a fl)
  show ?case
  proof (cases i)
    case 0
    then show ?thesis using separated_tail [OF Cons.prems] by (simp add: pop_def)
  next
    case (Suc k)
    have p: "pop i (a # fl) = a # pop k fl" using Suc by (simp add: pop_def)
    show ?thesis
    proof (cases fl)
      case Nil
      then show ?thesis using Cons.prems p by (simp add: pop_def)
    next
      case (Cons b r)
      show ?thesis
      proof (cases k)
        case 0
        then have "pop k fl = r" using Cons by (simp add: pop_def)
        then show ?thesis using p separated_drop_second Cons.prems Cons by simp
      next
        case (Suc m)
        then have "pop k fl = b # pop m r" using Cons by (simp add: pop_def)
        moreover have "separated (pop k fl)"
          using \<open>\<And>i. separated fl \<Longrightarrow> separated (pop i fl)\<close> separated_tail [OF Cons.prems]
          by simp
        ultimately show ?thesis using p Cons.prems Cons by simp
      qed
    qed
  qed
qed

lemma separated_shrink:
  "separated fl \<Longrightarrow> i < length fl \<Longrightarrow> fl ! i = (s, l) \<Longrightarrow> 0 \<le> sz \<Longrightarrow> sz \<le> l \<Longrightarrow>
   separated (fl[i := (s + sz, l - sz)])"
proof (induction fl arbitrary: i rule: separated.induct)
  case 1
  then show ?case by simp
next
  case (2 a)
  then show ?case by simp
next
  case (3 a b r)
  show ?case
  proof (cases i)
    case 0
    then show ?thesis using "3.prems" by auto
  next
    case (Suc k)
    have t: "separated ((b # r)[k := (s + sz, l - sz)])"
      using "3.IH" [of k] "3.prems" Suc by simp
    show ?thesis
    proof (cases k)
      case 0
      then show ?thesis using t "3.prems" Suc by auto
    next
      case (Suc m)
      then show ?thesis using t "3.prems" \<open>i = Suc k\<close> by auto
    qed
  qed
qed

lemma best_fit_None:
  "best_fit fl sz k best = None \<longleftrightarrow> best = None \<and> (\<forall>b \<in> set fl. snd b < sz)"
proof (induction fl arbitrary: k best)
  case Nil
  then show ?case by simp
next
  case (Cons b fl)
  obtain st fsz where b: "b = (st, fsz)" by (cases b)
  show ?case unfolding b best_fit.simps Cons.IH
    by (cases best) (auto split: if_splits)
qed

lemma best_fit_spec:
  "best_fit fl sz k best = Some (i, s) \<Longrightarrow>
   (\<forall>b \<in> set fl. sz \<le> snd b \<longrightarrow> s \<le> snd b)
   \<and> ((best = Some (i, s))
      \<or> (k \<le> i \<and> i < k + length fl \<and> snd (fl ! (i - k)) = s \<and> sz \<le> s
         \<and> (\<forall>j < i - k. sz \<le> snd (fl ! j) \<longrightarrow> s < snd (fl ! j))
         \<and> (case best of None \<Rightarrow> True | Some (i0, s0) \<Rightarrow> s < s0)))"
proof (induction fl arbitrary: k best)
  case Nil
  then show ?case by simp
next
  case (Cons b fl)
  obtain st fsz where b: "b = (st, fsz)" by (cases b)
  let ?upd = "fsz \<ge> sz \<and> (case best of None \<Rightarrow> True | Some (i0, s0) \<Rightarrow> fsz < s0)"
  let ?best = "if ?upd then Some (k, fsz) else best"
  from Cons.prems b have r: "best_fit fl sz (Suc k) ?best = Some (i, s)" by simp
  note ih = Cons.IH [OF r]
  from ih have mn: "\<forall>c \<in> set fl. sz \<le> snd c \<longrightarrow> s \<le> snd c" by simp
  from ih consider (kept) "?best = Some (i, s)"
    | (later) "Suc k \<le> i" "i < Suc k + length fl" "snd (fl ! (i - Suc k)) = s" "sz \<le> s"
        "\<forall>j < i - Suc k. sz \<le> snd (fl ! j) \<longrightarrow> s < snd (fl ! j)"
        "case ?best of None \<Rightarrow> True | Some (i0, s0) \<Rightarrow> s < s0"
    by blast
  then show ?case
  proof cases
    case kept
    show ?thesis
    proof (cases ?upd)
      case True
      with kept have "i = k" "s = fsz" by simp_all
      then show ?thesis using True mn b by (auto split: option.splits)
    next
      case False
      with kept have "best = Some (i, s)" by simp
      then show ?thesis using False mn b by auto
    qed
  next
    case later
    have idx: "i - k = Suc (i - Suc k)" using later(1) by simp
    have here: "sz \<le> fsz \<longrightarrow> s < fsz"
      using later(6) by (auto split: if_splits option.splits)
    have old: "case best of None \<Rightarrow> True | Some (i0, s0) \<Rightarrow> s < s0"
      using later(6) by (auto split: if_splits option.splits)
    have early: "\<forall>j < i - k. sz \<le> snd ((b # fl) ! j) \<longrightarrow> s < snd ((b # fl) ! j)"
    proof (intro allI impI)
      fix j assume "j < i - k" "sz \<le> snd ((b # fl) ! j)"
      then show "s < snd ((b # fl) ! j)"
        using here later(5) b idx by (cases j) auto
    qed
    have "\<forall>c \<in> set (b # fl). sz \<le> snd c \<longrightarrow> s \<le> snd c" using mn here b by auto
    moreover have "k \<le> i" "i < k + length (b # fl)" "snd ((b # fl) ! (i - k)) = s"
      using later(1,2,3) idx by simp_all
    ultimately show ?thesis using later(4) early old by blast
  qed
qed


lemma allocate_space_none:
  "\<forall>b \<in> set (free_space fs). snd b < sz \<Longrightarrow> allocate_space fs sz = (Inl OutOfSpace, fs)"
  using best_fit_None [of "free_space fs" sz 0 None] by (simp add: allocate_space_def)






lemmas alloc_eval = alloc_run_def initialize_def allocate_space_def release_space_def pop_def
  merge_adjacent.simps less_eq_prod_def less_prod_def










section \<open>Coalescing\<close>

lemma separated_allocate_space:
  assumes "separated (free_space fs)" "0 \<le> sz"
  shows "separated (free_space (snd (allocate_space fs sz)))"
proof (cases "\<forall>b \<in> set (free_space fs). snd b < sz")
  case True
  then show ?thesis using assms(1) by (simp add: allocate_space_none)
next
  case False
  then obtain b where b: "b \<in> set (free_space fs)" "sz \<le> snd b" by (auto simp: not_less)
  let ?fl = "free_space fs"
  have ne: "?fl \<noteq> []" using b(1) by auto
  have "best_fit ?fl sz 0 None \<noteq> None" using False by (simp add: best_fit_None)
  then obtain i len where bf: "best_fit ?fl sz 0 None = Some (i, len)" by auto
  from best_fit_spec [OF bf]
  have i: "i < length ?fl" and l: "snd (?fl ! i) = len" and ge: "sz \<le> len" by auto
  define start where "start = fst (?fl ! i)"
  have blk: "?fl ! i = (start, len)" using l by (simp add: start_def prod_eq_iff)
  have "free_space (snd (allocate_space fs sz)) =
          (if len = sz then pop i ?fl else ?fl[i := (start + sz, len - sz)])"
    using ne bf blk by (simp add: allocate_space_def)
  then show ?thesis
    using separated_pop [OF assms(1)] separated_shrink [OF assms(1) i blk assms(2) ge] by simp
qed

lemma separated_release_space:
  assumes "separated (free_space fs)" "0 < sz \<longrightarrow> clear_of (free_space fs) start sz"
  shows "separated (free_space (release_space fs start sz))"
proof (cases "0 < sz")
  case False
  then show ?thesis using assms(1) by (simp add: release_space_def)
next
  case True
  with assms(2) have "\<forall>c \<in> set (free_space fs). fst c + snd c \<le> start \<or> start + sz \<le> fst c"
    by (simp add: clear_of_def list_all_iff)
  from separated_release [OF assms(1) True this] True show ?thesis
    by (simp add: release_space_def)
qed

lemma separated_alloc_run:
  "separated (free_space fs) \<Longrightarrow> disciplined fs calls \<Longrightarrow>
   separated (free_space (alloc_run fs calls))"
proof (induction calls arbitrary: fs)
  case Nil
  then show ?case by (simp add: alloc_run_def)
next
  case (Cons c calls)
  have "separated (free_space (alloc_step fs c)) \<and> disciplined (alloc_step fs c) calls"
  proof (cases c)
    case (Allocate sz)
    then show ?thesis using Cons.prems separated_allocate_space by simp
  next
    case (Release start sz)
    then show ?thesis using Cons.prems separated_release_space [of fs sz start] by simp
  qed
  then have "separated (free_space (alloc_run (alloc_step fs c) calls))" using Cons.IH by simp
  then show ?case by (simp add: alloc_run_def)
qed

lemma separated_before:
  "separated (a # fl) \<Longrightarrow> b \<in> set fl \<Longrightarrow> fst a + snd a < fst b"
proof (induction fl arbitrary: a)
  case Nil
  then show ?case by simp
next
  case (Cons c fl)
  from Cons.prems(1) have 1: "fst a + snd a < fst c" "separated (c # fl)" by simp_all
  have c0: "0 \<le> snd c" using 1(2) by (cases fl) auto
  show ?case
  proof (cases "b = c")
    case True
    with 1 show ?thesis by simp
  next
    case False
    with Cons.prems(2) have "b \<in> set fl" by simp
    from Cons.IH [OF 1(2) this] 1(1) c0 show ?thesis by simp
  qed
qed

lemma separated_sorted_wrt: "separated fl \<Longrightarrow> sorted_wrt (\<lambda>a b. fst a + snd a < fst b) fl"
proof (induction fl)
  case Nil
  then show ?case by simp
next
  case (Cons a fl)
  then show ?case using separated_before [OF Cons.prems] separated_tail [OF Cons.prems] by simp
qed

lemma separated_properties:
  assumes "separated fl"
  shows "sorted (map fst fl)
    \<and> (\<forall>i j. i < j \<and> j < length fl \<longrightarrow> fst (fl ! i) + snd (fl ! i) < fst (fl ! j))
    \<and> (\<forall>i j. i < length fl \<and> j < length fl \<and> i \<noteq> j \<longrightarrow>
          fst (fl ! i) + snd (fl ! i) \<noteq> fst (fl ! j))"
proof -
  have lt: "fst (fl ! i) + snd (fl ! i) < fst (fl ! j)" if "i < j" "j < length fl" for i j
    using separated_sorted_wrt [OF assms] that by (simp add: sorted_wrt_iff_nth_less)
  have nn: "0 \<le> snd (fl ! i)" if "i < length fl" for i
    using separated_nonneg [OF assms] that by simp
  have "fst (fl ! i) \<le> fst (fl ! j)" if "i \<le> j" "j < length fl" for i j
  proof (cases "i = j")
    case False
    with that have "i < j" by simp
    from lt [OF this that(2)] nn [of i] that show ?thesis by simp
  qed simp
  then have s: "sorted (map fst fl)" by (simp add: sorted_iff_nth_mono)
  have ne: "fst (fl ! i) + snd (fl ! i) \<noteq> fst (fl ! j)"
    if "i < length fl" "j < length fl" "i \<noteq> j" for i j
  proof (cases "i < j")
    case True
    from lt [OF this that(2)] show ?thesis by simp
  next
    case False
    with that have "j < i" by simp
    from lt [OF this that(1)] nn [OF that(1)] nn [OF that(2)] show ?thesis by simp
  qed
  show ?thesis using s lt ne by simp
qed


text \<open>
  Claim C3, as amended. After every disciplined sequence of allocate and release calls on
  a fresh volume of non-negative capacity, the free list is in ascending start order,
  each block ends strictly before every later block begins (so no two blocks overlap),
  and no block ends where another begins.
\<close>

theorem free_list_stays_separated:
  assumes "0 \<le> cap" and "disciplined (initialize cap now) calls"
  shows "sorted (map fst (free_space (alloc_run (initialize cap now) calls)))
    \<and> (\<forall>i j. i < j \<and> j < length (free_space (alloc_run (initialize cap now) calls)) \<longrightarrow>
          fst (free_space (alloc_run (initialize cap now) calls) ! i)
            + snd (free_space (alloc_run (initialize cap now) calls) ! i)
          < fst (free_space (alloc_run (initialize cap now) calls) ! j))
    \<and> (\<forall>i j. i < length (free_space (alloc_run (initialize cap now) calls))
            \<and> j < length (free_space (alloc_run (initialize cap now) calls)) \<and> i \<noteq> j \<longrightarrow>
          fst (free_space (alloc_run (initialize cap now) calls) ! i)
            + snd (free_space (alloc_run (initialize cap now) calls) ! i)
          \<noteq> fst (free_space (alloc_run (initialize cap now) calls) ! j))"
proof -
  have "separated (free_space (initialize cap now))" using assms(1) by (simp add: initialize_def)
  from separated_alloc_run [OF this assms(2)] show ?thesis by (rule separated_properties)
qed

theorem free_list_stays_separated_witness:
  "0 \<le> (1024 :: int)
   \<and> disciplined (initialize 1024 0) [Allocate 100, Allocate 50, Release 0 100]
   \<and> free_space (alloc_run (initialize 1024 0) [Allocate 100, Allocate 50, Release 0 100])
       = [(0, 100), (150, 874)]
   \<and> sorted (map fst
        (free_space (alloc_run (initialize 1024 0) [Allocate 100, Allocate 50, Release 0 100])))"
proof -
  have d: "disciplined (initialize 1024 0) [Allocate 100, Allocate 50, Release 0 100]"
    by (simp add: alloc_eval clear_of_def)
  have f: "free_space (alloc_run (initialize 1024 0) [Allocate 100, Allocate 50, Release 0 100])
       = [(0, 100), (150, 874)]"
    by (simp add: alloc_eval)
  from free_list_stays_separated [OF _ d] d f show ?thesis by simp
qed

text \<open>
  The claim as stated holds for every sequence of calls. A release of a range that was
  never allocated breaks it: \<^verbatim>\<open>_release_space(0, 4)\<close> on a fresh volume leaves the blocks
  \<open>(0, 4)\<close> and \<open>(0, 1024)\<close>, which overlap. The volume itself makes such a call: a file
  grows without any allocation, and \<^verbatim>\<open>delete\<close> releases its size.
\<close>

theorem free_list_overlap_counterexample:
  "free_space (alloc_run (initialize 1024 0) [Release 0 4]) = [(0, 4), (0, 1024)]
   \<and> free_space (run (initialize 1024 0)
        [(1, Create ''a.txt''), (2, Open ''a.txt'' ''w''), (3, Append 0 (ascii ''abcd'')),
         (4, Close ''a.txt''), (5, Delete ''a.txt'')]) = [(0, 4), (0, 1024)]
   \<and> overlaps (0, 4) (0, 1024)"
  by (simp add: alloc_run_def merge_adjacent.simps less_eq_prod_def overlaps_def eval_defs)

section \<open>Operations that raise\<close>

text \<open>
  The checks at the head of an operation raise before anything is assigned, and so does
  a failing allocation or read inside \<^verbatim>\<open>open\<close>: the volume is then exactly as it was.
\<close>

lemma allocate_space_error: "allocate_space fs sz = (Inl e, fs') \<Longrightarrow> fs' = fs \<and> e = OutOfSpace"
  by (auto simp: allocate_space_def split: if_splits option.splits prod.splits)

lemma guards_change_nothing:
  "fst (create fs now nm) = Inl AlreadyExists \<longrightarrow> snd (create fs now nm) = fs"
  "(\<exists>e. fst (delete fs nm) = Inl e) \<longrightarrow> snd (delete fs nm) = fs"
  "(\<exists>e. fst (mkdir fs now nm) = Inl e) \<longrightarrow> snd (mkdir fs now nm) = fs"
  "(\<exists>e. fst (chdir fs nm) = Inl e) \<longrightarrow> snd (chdir fs nm) = fs"
  "(\<exists>e. fst (close fs nm) = Inl e) \<longrightarrow> snd (close fs nm) = fs"
  "fst (move fs now nm dir) \<in> {Inl NotFound, Inl InUse} \<longrightarrow> snd (move fs now nm dir) = fs"
  by (auto simp: create_def delete_def mkdir_def chdir_def close_def move_def Let_def
        split: option.splits prod.splits sum.splits dest: allocate_space_error)

lemma file_object_init_error:
  assumes "file_object_init fs now nm md = (Inl e, fs')" "e \<noteq> KeyError"
  shows "fs' = fs"
proof (cases "files fs nm")
  case (Some r)
  with assms(1) show ?thesis
    by (auto simp: file_object_init_def split: sum.splits option.splits)
next
  case None
  show ?thesis
  proof (cases "md = ''w''")
    case False
    with None assms(1) show ?thesis by (simp add: file_object_init_def)
  next
    case True
    obtain ar fs1 where a: "allocate_space fs 0 = (ar, fs1)" by (cases "allocate_space fs 0")
    show ?thesis
    proof (cases ar)
      case (Inl x)
      with a allocate_space_error have "fs1 = fs" by blast
      then show ?thesis using None True a Inl assms(1) by (simp add: file_object_init_def)
    next
      case (Inr start)
      with None True a assms show ?thesis
        by (simp add: file_object_init_def Let_def split: option.splits)
    qed
  qed
qed

lemma open_file_error:
  "open_file fs now nm md = (Inl e, fs') \<Longrightarrow> e \<noteq> KeyError \<Longrightarrow> fs' = fs"
  by (auto simp: open_file_def Let_def split: if_splits prod.splits sum.splits
        dest: file_object_init_error)


text \<open>
  Claim C4 has every operation that raises leave the file table, the directories, the
  free list and the used size as they were. \<^verbatim>\<open>open\<close> of a missing file for writing, with the
  root as current directory, does not: \<^verbatim>\<open>FileObject.__init__\<close> appends the name to the
  root's \<^verbatim>\<open>files\<close> list and then subscripts \<^verbatim>\<open>directories\<close> with the empty string, which
  raises \<^verbatim>\<open>KeyError\<close>; the name stays in the list and no record enters the file table.
  \<^verbatim>\<open>move\<close> to \<^verbatim>\<open>'/'\<close> does not either: the target path is stripped to the empty string,
  the file is unlinked from every directory, and the same subscript raises.
\<close>

theorem open_new_file_at_root_raises_midway:
  "fst (open_file (initialize 1024 0) 1 ''new.txt'' ''w'') = Inl KeyError
   \<and> map_option d_files (directories (initialize 1024 0) ''/'') = Some []
   \<and> map_option d_files
        (directories (snd (open_file (initialize 1024 0) 1 ''new.txt'' ''w'')) ''/'')
       = Some [''new.txt'']
   \<and> file_table (snd (open_file (initialize 1024 0) 1 ''new.txt'' ''w'')) ''new.txt'' = None
   \<and> fst (move (run (initialize 1024 0) [(1, Create ''a.txt'')]) 2 ''a.txt'' ''/'') = Inl KeyError
   \<and> map_option d_files
        (directories (run (initialize 1024 0) [(1, Create ''a.txt'')]) ''/'') = Some [''a.txt'']
   \<and> map_option d_files
        (directories (snd (move (run (initialize 1024 0) [(1, Create ''a.txt'')]) 2 ''a.txt'' ''/''))
           ''/'') = Some []"
  by (simp add: eval_defs path_parts_of_def rstrip_slash_def startswith_slash_def)

end
